theory Spec2Isabelle
  imports Main "HOL-Library.Sublist" "HOL-Library.Word"
begin

section \<open>Characters\<close>

text \<open>
  Python strings are modelled by \<^typ>\<open>string\<close>: lists of the 256 characters of
  \<^typ>\<open>char\<close>, read as the code points U+0000 to U+00FF. The character classes
  below are Python's, restricted to that range.

  \<^verbatim>\<open>str.isspace\<close>, \<^verbatim>\<open>str.strip()\<close> and the regular expression class
  \<^verbatim>\<open>\s\<close> share one set of white space characters.
\<close>

definition is_space :: "char \<Rightarrow> bool" where
  "is_space c =
     (let n = (of_char c :: nat)
      in (9 \<le> n \<and> n \<le> 13) \<or> (28 \<le> n \<and> n \<le> 32) \<or> n = 133 \<or> n = 160)"

text \<open>The class \<^verbatim>\<open>[\r\n]\<close>.\<close>

definition is_crlf :: "char \<Rightarrow> bool" where
  "is_crlf c = (c = CHR 0x0D \<or> c = CHR 0x0A)"

text \<open>\<^verbatim>\<open>str.lower()\<close> on one character.\<close>

definition py_lower :: "char \<Rightarrow> char" where
  "py_lower c =
     (let n = (of_char c :: nat)
      in if (65 \<le> n \<and> n \<le> 90) \<or> (192 \<le> n \<and> n \<le> 222 \<and> n \<noteq> 215)
         then char_of (n + 32) else c)"

text \<open>\<^verbatim>\<open>str.strip()\<close> with no argument.\<close>

definition strip :: "string \<Rightarrow> string" where
  "strip s = rev (dropWhile is_space (rev (dropWhile is_space s)))"

section \<open>Backtracking regular expressions\<close>

text \<open>
  The patterns of this program are sequences of literals, repetitions of a character
  class (greedy \<^verbatim>\<open>\s*\<close>, \<^verbatim>\<open>[\r\n]+\<close>; lazy \<^verbatim>\<open>.*?\<close> under
  \<^verbatim>\<open>re.DOTALL\<close>), and one alternative \<^verbatim>\<open>(```|$)\<close>. The matcher is the
  backtracking one of \<^verbatim>\<open>re\<close>: every item offers the prefix lengths it can
  consume in its order of preference, and the first choice for which the rest of the
  pattern matches is taken.
\<close>

datatype cls = AnyChar | Space | CrLf

fun in_cls :: "cls \<Rightarrow> char \<Rightarrow> bool" where
  "in_cls AnyChar c = True"
| "in_cls Space c = is_space c"
| "in_cls CrLf c = is_crlf c"

datatype quant = Greedy | Lazy

datatype item =
    Lit string
  | LitCI string
  | Rep quant nat cls
  | Alt item item
  | Eos

text \<open>
  \<open>Lit l\<close> is a literal, \<open>LitCI l\<close> a literal under \<^verbatim>\<open>re.IGNORECASE\<close>,
  \<open>Rep q n c\<close> at least \<open>n\<close> characters of the class \<open>c\<close>, \<open>Alt a b\<close> the
  alternative \<^verbatim>\<open>a|b\<close>, and \<open>Eos\<close> is \<^verbatim>\<open>$\<close> without
  \<^verbatim>\<open>re.MULTILINE\<close>: the end of the text, or the position before a line feed that
  ends the text.
\<close>

fun cands :: "item \<Rightarrow> string \<Rightarrow> nat list" where
  "cands (Lit l) s = (if prefix l s then [length l] else [])"
| "cands (LitCI l) s =
     (if length l \<le> length s \<and> map py_lower (take (length l) s) = map py_lower l
      then [length l] else [])"
| "cands (Rep Lazy n c) s = [n ..< Suc (length (takeWhile (in_cls c) s))]"
| "cands (Rep Greedy n c) s = rev [n ..< Suc (length (takeWhile (in_cls c) s))]"
| "cands (Alt a b) s = cands a s @ cands b s"
| "cands Eos s = (if s = [] \<or> s = [CHR 0x0A] then [0] else [])"

fun first_some :: "('a \<Rightarrow> 'b option) \<Rightarrow> 'a list \<Rightarrow> 'b option" where
  "first_some f [] = None"
| "first_some f (x # xs) = (case f x of Some y \<Rightarrow> Some y | None \<Rightarrow> first_some f xs)"

text \<open>
  \<open>match_items is s\<close> matches the pattern at the start of \<open>s\<close> and returns the
  text consumed by each item, in order.
\<close>

primrec match_items :: "item list \<Rightarrow> string \<Rightarrow> string list option" where
  "match_items [] s = Some []"
| "match_items (i # is) s =
     first_some (\<lambda>k. map_option ((#) (take k s)) (match_items is (drop k s))) (cands i s)"

text \<open>
  \<^verbatim>\<open>re.search\<close>: the leftmost position where the pattern matches. The result is the
  text before the match, the segments of the match and the text after it.
\<close>

fun search :: "item list \<Rightarrow> string \<Rightarrow> (string \<times> string list \<times> string) option" where
  "search is [] = map_option (\<lambda>segs. ([], segs, [])) (match_items is [])"
| "search is (c # cs) =
     (case match_items is (c # cs) of
        Some segs \<Rightarrow> Some ([], segs, drop (length (concat segs)) (c # cs))
      | None \<Rightarrow> map_option (\<lambda>(pre, segs, rest). (c # pre, segs, rest)) (search is cs))"

section \<open>The metadata header\<close>

text \<open>
  The pattern of \<^verbatim>\<open>extract_metadata_from_markdown\<close>:
  \<^verbatim>\<open>\*\*Author:\*\* (.*?)\s*[\r\n]+.*?\*\*Date:\*\* (.*?)\s*[\r\n]+.*?\*\*Status:\*\* (.*?)\s*[\r\n]+.*?\*\*Reviewers:\*\* (.*?)\s*[\r\n]+.*?\*\*Topic:\*\* (.*?)\s*[\r\n]+\<close>
  with \<^verbatim>\<open>re.DOTALL\<close>. A field is the label with its blank, the value (a group),
  \<^verbatim>\<open>\s*\<close> and \<^verbatim>\<open>[\r\n]+\<close>; fields are joined by \<^verbatim>\<open>.*?\<close>.
\<close>

definition parse_field :: "string \<Rightarrow> item list" where
  "parse_field label =
     [Lit (label @ '' ''), Rep Lazy 0 AnyChar, Rep Greedy 0 Space, Rep Greedy 1 CrLf]"

definition filler :: item where
  "filler = Rep Lazy 0 AnyChar"

definition parse_items :: "item list" where
  "parse_items =
     parse_field ''**Author:**'' @ [filler] @
     parse_field ''**Date:**'' @ [filler] @
     parse_field ''**Status:**'' @ [filler] @
     parse_field ''**Reviewers:**'' @ [filler] @
     parse_field ''**Topic:**''"

text \<open>
  The result is a dictionary: the five keys on a match, the empty dictionary otherwise.
  The groups 1 to 5 are the segments 1, 6, 11, 16 and 21 of the match.
\<close>

definition extract_metadata_from_markdown :: "string \<Rightarrow> (string \<rightharpoonup> string)" where
  "extract_metadata_from_markdown md_text =
     (case search parse_items md_text of
        Some (pre, segs, rest) \<Rightarrow>
          [''author'' \<mapsto> strip (segs ! 1),
           ''date'' \<mapsto> strip (segs ! 6),
           ''status'' \<mapsto> strip (segs ! 11),
           ''reviewers'' \<mapsto> strip (segs ! 16),
           ''topic'' \<mapsto> strip (segs ! 21)]
      | None \<Rightarrow> Map.empty)"




text \<open>The segments of a match, collected group by group.\<close>

fun chop :: "nat list \<Rightarrow> 'a list \<Rightarrow> 'a list list" where
  "chop [] xs = []"
| "chop (n # ns) xs = take n xs # chop ns (drop n xs)"



section \<open>Replacement templates\<close>

text \<open>
  \<^verbatim>\<open>re.sub\<close> parses a replacement string that holds a backslash before it searches
  (CPython 3.12, \<^verbatim>\<open>re._parser.parse_template\<close>). A malformed template raises
  \<^verbatim>\<open>re.error\<close> or \<^verbatim>\<open>IndexError\<close>; nothing in this program catches either.
\<close>

datatype exn = Bad_template | Lib_error | Unicode_error

datatype tok = TLit char | TGroup nat







definition tcons :: "tok list \<Rightarrow> exn + tok list \<Rightarrow> exn + tok list" where
  "tcons ts r = (case r of Inl e \<Rightarrow> Inl e | Inr us \<Rightarrow> Inr (ts @ us))"





section \<open>Substitution\<close>

lemma cands_le: "k \<in> set (cands i s) \<Longrightarrow> k \<le> length s"
proof (induction i s rule: cands.induct)
  case (3 n c s)
  have "length (takeWhile (in_cls c) s) \<le> length s" by (rule length_takeWhile_le)
  with 3 show ?case by auto
next
  case (4 n c s)
  have "length (takeWhile (in_cls c) s) \<le> length s" by (rule length_takeWhile_le)
  with 4 show ?case by auto
qed (auto split: if_splits dest: prefix_length_le)












section \<open>Text and image extraction\<close>

text \<open>
  File contents are byte strings. A decoded text is a list of Unicode code points: the
  UTF-8 decoder can produce any of them.
\<close>

type_synonym byte = "8 word"
type_synonym bytes = "byte list"
type_synonym ustring = "nat list"

definition ustr :: "string \<Rightarrow> ustring" where
  "ustr s = map of_char s"

subsection \<open>The UTF-8 decoder\<close>

text \<open>
  \<^verbatim>\<open>bytes.decode("utf-8", errors=...)\<close> as CPython decodes: the decoder reads one
  character, or reports the bytes it rejects: an invalid start byte (one byte), an
  invalid continuation byte (the bytes before it), or an unexpected end of the data
  (all the bytes left). The error handler then raises (\<^verbatim>\<open>strict\<close>), skips the
  bytes (\<^verbatim>\<open>ignore\<close>) or puts U+FFFD in their place (\<^verbatim>\<open>replace\<close>).
\<close>

datatype errors = Strict | Ignore | Replace

datatype step = Char nat nat | Bad nat

definition is_cont :: "byte \<Rightarrow> bool" where
  "is_cont b = (0x80 \<le> unat b \<and> unat b < 0xC0)"

definition cont_bits :: "byte \<Rightarrow> nat" where
  "cont_bits b = unat b mod 64"

text \<open>
  \<open>utf8_step b bs\<close> decodes at the byte \<open>b\<close> followed by \<open>bs\<close>: \<open>Char c n\<close> is
  the code point \<open>c\<close> read from \<open>n\<close> bytes, \<open>Bad n\<close> rejects \<open>n\<close> bytes.
\<close>

definition utf8_step :: "byte \<Rightarrow> bytes \<Rightarrow> step" where
  "utf8_step b bs =
     (let ch = unat b in
      if ch < 0x80 then Char ch 1
      else if ch < 0xC2 then Bad 1
      else if ch < 0xE0 then
        (case bs of
           [] \<Rightarrow> Bad 1
         | b2 # _ \<Rightarrow>
             if \<not> is_cont b2 then Bad 1
             else Char ((ch mod 32) * 64 + cont_bits b2) 2)
      else if ch < 0xF0 then
        (case bs of
           [] \<Rightarrow> Bad 1
         | b2 # r2 \<Rightarrow>
             if \<not> is_cont b2 \<or> (if unat b2 < 0xA0 then ch = 0xE0 else ch = 0xED) then Bad 1
             else
               (case r2 of
                  [] \<Rightarrow> Bad 2
                | b3 # _ \<Rightarrow>
                    if \<not> is_cont b3 then Bad 2
                    else Char ((ch mod 16) * 4096 + cont_bits b2 * 64 + cont_bits b3) 3))
      else if ch < 0xF5 then
        (case bs of
           [] \<Rightarrow> Bad 1
         | b2 # r2 \<Rightarrow>
             if \<not> is_cont b2 \<or> (if unat b2 < 0x90 then ch = 0xF0 else ch = 0xF4) then Bad 1
             else
               (case r2 of
                  [] \<Rightarrow> Bad 2
                | b3 # r3 \<Rightarrow>
                    if \<not> is_cont b3 then Bad 2
                    else
                      (case r3 of
                         [] \<Rightarrow> Bad 3
                       | b4 # _ \<Rightarrow>
                           if \<not> is_cont b4 then Bad 3
                           else Char ((ch mod 8) * 262144 + cont_bits b2 * 4096
                                      + cont_bits b3 * 64 + cont_bits b4) 4)))
      else Bad 1)"

definition ucons :: "nat \<Rightarrow> exn + ustring \<Rightarrow> exn + ustring" where
  "ucons c r = (case r of Inl e \<Rightarrow> Inl e | Inr t \<Rightarrow> Inr (c # t))"

fun utf8_decode :: "errors \<Rightarrow> bytes \<Rightarrow> exn + ustring" where
  "utf8_decode h [] = Inr []"
| "utf8_decode h (b # bs) =
     (case utf8_step b bs of
        Char c n \<Rightarrow> ucons c (utf8_decode h (drop (n - 1) bs))
      | Bad n \<Rightarrow>
          (case h of
             Strict \<Rightarrow> Inl Unicode_error
           | Ignore \<Rightarrow> utf8_decode h (drop (n - 1) bs)
           | Replace \<Rightarrow> ucons 0xFFFD (utf8_decode h (drop (n - 1) bs))))"


subsection \<open>The libraries\<close>

text \<open>
  \<^verbatim>\<open>python-docx\<close>, \<^verbatim>\<open>PyPDF2\<close> and \<^verbatim>\<open>fitz\<close> are parameters of the
  model. A library whose import failed is \<open>None\<close>; any of their calls may raise.
  A relationship of a document has its \<^verbatim>\<open>target_ref\<close> and its
  \<^verbatim>\<open>target_part.blob\<close>; a PDF page is the result of its \<^verbatim>\<open>extract_text()\<close>;
  a \<^verbatim>\<open>fitz\<close> document has the image references of its pages and
  \<^verbatim>\<open>extract_image\<close>.
\<close>

record docx_rel =
  target_ref :: string
  target_blob :: "exn + bytes"

record docx_document =
  paragraphs :: "ustring list"
  rels :: "docx_rel list"

record fitz_document =
  page_images :: "nat list list"
  extract_image :: "nat \<Rightarrow> exn + bytes"

record pylibs =
  Document :: "(bytes \<Rightarrow> exn + docx_document) option"
  PdfReader :: "(bytes \<Rightarrow> exn + (exn + ustring) list) option"
  fitz_open :: "(bytes \<Rightarrow> exn + fitz_document) option"

subsection \<open>Extraction\<close>

text \<open>\<^verbatim>\<open>file_name.lower().split(".")[-1]\<close>\<close>

definition ext_of :: "string \<Rightarrow> string" where
  "ext_of file_name = rev (takeWhile (\<lambda>c. c \<noteq> CHR ''.'') (rev (map py_lower file_name)))"

text \<open>\<^verbatim>\<open>sep.join(xs)\<close>\<close>

fun join :: "'a list \<Rightarrow> 'a list list \<Rightarrow> 'a list" where
  "join sep [] = []"
| "join sep [x] = x"
| "join sep (x # y # ys) = x @ sep @ join sep (y # ys)"

text \<open>\<^verbatim>\<open>try: ... except Exception: return d\<close>\<close>

definition catch :: "exn + 'a \<Rightarrow> 'a \<Rightarrow> exn + 'a" where
  "catch r d = (case r of Inl e \<Rightarrow> Inr d | Inr v \<Rightarrow> Inr v)"

text \<open>The texts of the pages that have one; the first page that raises ends it.\<close>

fun page_texts :: "(exn + ustring) list \<Rightarrow> exn + ustring list" where
  "page_texts [] = Inr []"
| "page_texts (Inl e # ps) = Inl e"
| "page_texts (Inr t # ps) =
     (case page_texts ps of
        Inl e \<Rightarrow> Inl e
      | Inr ts \<Rightarrow> Inr (if t = [] then ts else t # ts))"

definition docx_text :: "(bytes \<Rightarrow> exn + docx_document) \<Rightarrow> bytes \<Rightarrow> exn + ustring" where
  "docx_text opn file_bytes =
     (case opn file_bytes of
        Inl e \<Rightarrow> Inl e
      | Inr doc \<Rightarrow> Inr (join [10] (paragraphs doc)))"

definition pdf_text :: "(bytes \<Rightarrow> exn + (exn + ustring) list) \<Rightarrow> bytes \<Rightarrow> exn + ustring" where
  "pdf_text reader file_bytes =
     (case reader file_bytes of
        Inl e \<Rightarrow> Inl e
      | Inr pages \<Rightarrow>
          (case page_texts pages of
             Inl e \<Rightarrow> Inl e
           | Inr ts \<Rightarrow> Inr (join [10] ts)))"

definition extract_text_from_file :: "pylibs \<Rightarrow> bytes \<Rightarrow> string \<Rightarrow> exn + ustring" where
  "extract_text_from_file L file_bytes file_name =
     (let ext = ext_of file_name in
      if ext \<in> set [''md'', ''txt''] then utf8_decode Ignore file_bytes
      else if ext = ''docx'' \<and> Document L \<noteq> None then
        (case Document L of
           Some opn \<Rightarrow> catch (docx_text opn file_bytes) (ustr ''[Could not extract text from DOCX]'')
         | None \<Rightarrow> catch (utf8_decode Ignore file_bytes)
                     (ustr ''[Unsupported file type or unreadable content]''))
      else if ext = ''pdf'' \<and> PdfReader L \<noteq> None then
        (case PdfReader L of
           Some reader \<Rightarrow> catch (pdf_text reader file_bytes) (ustr ''[Could not extract text from PDF]'')
         | None \<Rightarrow> catch (utf8_decode Ignore file_bytes)
                     (ustr ''[Unsupported file type or unreadable content]''))
      else catch (utf8_decode Ignore file_bytes)
             (ustr ''[Unsupported file type or unreadable content]''))"

text \<open>
  \<^verbatim>\<open>extract_images_from_docx\<close> and \<^verbatim>\<open>extract_images_from_pdf\<close> have no
  \<^verbatim>\<open>try\<close>: what the library raises reaches the caller.
\<close>

fun rel_images :: "docx_rel list \<Rightarrow> exn + bytes list" where
  "rel_images [] = Inr []"
| "rel_images (r # rs) =
     (if sublist ''image'' (target_ref r) then
        (case target_blob r of
           Inl e \<Rightarrow> Inl e
         | Inr blob \<Rightarrow>
             (case rel_images rs of Inl e \<Rightarrow> Inl e | Inr imgs \<Rightarrow> Inr (blob # imgs)))
      else rel_images rs)"

definition extract_images_from_docx :: "pylibs \<Rightarrow> bytes \<Rightarrow> exn + bytes list" where
  "extract_images_from_docx L file_bytes =
     (case Document L of
        None \<Rightarrow> Inr []
      | Some opn \<Rightarrow>
          (case opn file_bytes of
             Inl e \<Rightarrow> Inl e
           | Inr doc \<Rightarrow> rel_images (rels doc)))"

fun xref_images :: "(nat \<Rightarrow> exn + bytes) \<Rightarrow> nat list \<Rightarrow> exn + bytes list" where
  "xref_images ex [] = Inr []"
| "xref_images ex (x # xs) =
     (case ex x of
        Inl e \<Rightarrow> Inl e
      | Inr img \<Rightarrow>
          (case xref_images ex xs of Inl e \<Rightarrow> Inl e | Inr imgs \<Rightarrow> Inr (img # imgs)))"

definition extract_images_from_pdf :: "pylibs \<Rightarrow> bytes \<Rightarrow> exn + bytes list" where
  "extract_images_from_pdf L file_bytes =
     (if PdfReader L = None then Inr []
      else
        (case fitz_open L of
           None \<Rightarrow> Inr []
         | Some opn \<Rightarrow>
             (case opn file_bytes of
                Inl e \<Rightarrow> Inl e
              | Inr doc \<Rightarrow> xref_images (extract_image doc) (concat (page_images doc)))))"

definition extract_images_from_file :: "pylibs \<Rightarrow> bytes \<Rightarrow> string \<Rightarrow> exn + bytes list" where
  "extract_images_from_file L file_bytes file_name =
     (let ext = ext_of file_name in
      if ext = ''docx'' then extract_images_from_docx L file_bytes
      else if ext = ''pdf'' then extract_images_from_pdf L file_bytes
      else if ext \<in> set [''png'', ''jpg'', ''jpeg''] then Inr [file_bytes]
      else Inr [])"

text \<open>An installation where \<^verbatim>\<open>python-docx\<close> rejects every file, and one with no library.\<close>

definition strict_docx_libs :: pylibs where
  "strict_docx_libs =
     \<lparr>Document = Some (\<lambda>b. Inl Lib_error), PdfReader = None, fitz_open = None\<rparr>"

definition no_libs :: pylibs where
  "no_libs = \<lparr>Document = None, PdfReader = None, fitz_open = None\<rparr>"

lemma utf8_decode_Ignore_total: "\<exists>t. utf8_decode Ignore bs = Inr t"
proof (induction bs rule: length_induct)
  case (1 bs)
  show ?case
  proof (cases bs)
    case Nil
    then show ?thesis by simp
  next
    case (Cons b r)
    have "\<And>n. \<exists>t. utf8_decode Ignore (drop n r) = Inr t"
      using 1 Cons by simp
    then show ?thesis
      using Cons by (auto simp: ucons_def split: step.splits) (metis sum.simps(6))
  qed
qed

lemma utf8_decode_Strict_Ignore:
  "utf8_decode Strict bs = Inr t \<Longrightarrow> utf8_decode Ignore bs = Inr t"
proof (induction bs arbitrary: t rule: length_induct)
  case (1 bs)
  show ?case
  proof (cases bs)
    case Nil
    with 1 show ?thesis by simp
  next
    case (Cons b r)
    show ?thesis
    proof (cases "utf8_step b r")
      case (Char c n)
      with 1(2) Cons obtain t' where t': "utf8_decode Strict (drop (n - 1) r) = Inr t'" "t = c # t'"
        by (auto simp: ucons_def split: sum.splits)
      have "length (drop (n - 1) r) < length bs" using Cons by simp
      with 1(1) t' have "utf8_decode Ignore (drop (n - 1) r) = Inr t'" by blast
      with Char Cons t' show ?thesis by (simp add: ucons_def)
    next
      case (Bad n)
      with 1(2) Cons show ?thesis by simp
    qed
  qed
qed

text \<open>
  Claim C8, as the code has it: for a file name whose extension is \<^verbatim>\<open>md\<close> or
  \<^verbatim>\<open>txt\<close>, \<^verbatim>\<open>extract_text_from_file\<close> never raises, whatever the bytes; its
  result is the UTF-8 decoding in which the invalid byte sequences are dropped
  (\<^verbatim>\<open>errors="ignore"\<close>), and it is the strict decoding whenever the bytes are valid.
\<close>

theorem text_decode_ignores:
  assumes "ext_of file_name = ''md'' \<or> ext_of file_name = ''txt''"
  shows "\<exists>t. extract_text_from_file L file_bytes file_name = Inr t
            \<and> utf8_decode Ignore file_bytes = Inr t
            \<and> (\<forall>u. utf8_decode Strict file_bytes = Inr u \<longrightarrow> t = u)"
proof -
  obtain t where t: "utf8_decode Ignore file_bytes = Inr t"
    using utf8_decode_Ignore_total by blast
  have "extract_text_from_file L file_bytes file_name = Inr t"
    using assms t by (auto simp: extract_text_from_file_def Let_def)
  moreover have "\<forall>u. utf8_decode Strict file_bytes = Inr u \<longrightarrow> t = u"
    using t utf8_decode_Strict_Ignore by fastforce
  ultimately show ?thesis using t by blast
qed

lemma ext_a_txt: "ext_of ''a.txt'' = ''txt''"
  by (simp add: ext_of_def py_lower_def)

lemma ext_a_docx: "ext_of ''a.docx'' = ''docx''"
  by (simp add: ext_of_def py_lower_def)

lemma decode_FF_A:
  "utf8_decode Ignore [0xFF, 0x41] = Inr [65]" "utf8_decode Replace [0xFF, 0x41] = Inr [65533, 65]"
  by (simp_all add: utf8_step_def ucons_def)

lemma decode_A: "utf8_decode Strict [0x41] = Inr [65]"
  by (simp add: utf8_step_def ucons_def)

theorem text_decode_ignores_witness:
  "extract_text_from_file no_libs [0x41] ''a.txt'' = Inr [65]"
  using text_decode_ignores [of "''a.txt''" no_libs "[0x41]"] decode_A
  by (auto simp: ext_a_txt)

text \<open>
  Claim C8 as stated (invalid sequences replaced, not dropped) fails: the bytes
  \<^verbatim>\<open>FF 41\<close> decode to \<^verbatim>\<open>"A"\<close>, where a replacing decoder gives U+FFFD and
  \<^verbatim>\<open>"A"\<close>.
\<close>

theorem text_decode_replace_counterexample:
  "\<not> (\<forall>L file_bytes file_name. ext_of file_name = ''txt'' \<longrightarrow>
        extract_text_from_file L file_bytes file_name = utf8_decode Replace file_bytes)"
proof
  assume "\<forall>L file_bytes file_name. ext_of file_name = ''txt'' \<longrightarrow>
        extract_text_from_file L file_bytes file_name = utf8_decode Replace file_bytes"
  then have "extract_text_from_file no_libs [0xFF, 0x41] ''a.txt'' = utf8_decode Replace [0xFF, 0x41]"
    using ext_a_txt by blast
  moreover have "extract_text_from_file no_libs [0xFF, 0x41] ''a.txt'' = Inr [65]"
    by (simp add: extract_text_from_file_def ext_a_txt decode_FF_A del: utf8_decode.simps)
  ultimately show False
    by (simp add: decode_FF_A del: utf8_decode.simps)
qed

text \<open>
  Claim C5: extraction from a \<^verbatim>\<open>docx\<close> file must not raise. The text path keeps
  to it (the sentinel string); the image path does not: when \<^verbatim>\<open>Document(...)\<close>
  raises on the bytes, \<^verbatim>\<open>extract_images_from_file\<close> raises the same exception.
\<close>

theorem docx_images_raise:
  assumes "Document L = Some opn" and "opn file_bytes = Inl e" and "ext_of file_name = ''docx''"
  shows "extract_images_from_file L file_bytes file_name = Inl e
       \<and> extract_text_from_file L file_bytes file_name =
           Inr (ustr ''[Could not extract text from DOCX]'')"
  using assms
  by (simp add: extract_images_from_file_def extract_images_from_docx_def
      extract_text_from_file_def docx_text_def catch_def)

theorem docx_images_raise_witness:
  "extract_images_from_file strict_docx_libs [0x00] ''a.docx'' = Inl Lib_error
   \<and> extract_text_from_file strict_docx_libs [0x00] ''a.docx'' =
       Inr (ustr ''[Could not extract text from DOCX]'')"
  using docx_images_raise [of strict_docx_libs "\<lambda>b. Inl Lib_error" "[0x00]" Lib_error "''a.docx''"]
  by (simp add: strict_docx_libs_def ext_a_docx)


section \<open>Mermaid URLs\<close>

text \<open>
  \<^verbatim>\<open>urllib.parse\<close> is a parameter of the model: \<^verbatim>\<open>urlparse\<close> (of its result,
  the fragment and the query), \<^verbatim>\<open>parse_qs\<close> and \<^verbatim>\<open>unquote\<close>.
\<close>

record url_parts =
  fragment :: string
  query :: string

record urllib =
  urlparse :: "string \<Rightarrow> exn + url_parts"
  parse_qs :: "string \<Rightarrow> exn + (string \<rightharpoonup> string list)"
  unquote :: "string \<Rightarrow> exn + string"

text \<open>\<^verbatim>\<open>qs.get('graph', [""])[0]\<close>: the index raises on an empty list.\<close>

definition graph_param :: "(string \<rightharpoonup> string list) \<Rightarrow> exn + string" where
  "graph_param qs =
     (case (case qs ''graph'' of Some vs \<Rightarrow> vs | None \<Rightarrow> [[]]) of
        [] \<Rightarrow> Inl Lib_error
      | t # _ \<Rightarrow> Inr t)"

definition mermaid_sentinel :: string where
  "mermaid_sentinel = ''[Could not extract mermaid code from URL]''"

definition mermaid_code :: "urllib \<Rightarrow> string \<Rightarrow> exn + string" where
  "mermaid_code U mermaid_url =
     (case urlparse U mermaid_url of
        Inl e \<Rightarrow> Inl e
      | Inr u \<Rightarrow>
          if fragment u \<noteq> [] then unquote U (fragment u)
          else
            (case parse_qs U (query u) of
               Inl e \<Rightarrow> Inl e
             | Inr qs \<Rightarrow>
                 (case graph_param qs of
                    Inl e \<Rightarrow> Inl e
                  | Inr t \<Rightarrow> unquote U t)))"

text \<open>The whole body stands in \<^verbatim>\<open>try: ... except Exception:\<close>.\<close>

definition extract_mermaid_from_mermaid_url :: "urllib \<Rightarrow> string \<Rightarrow> string" where
  "extract_mermaid_from_mermaid_url U mermaid_url =
     (case mermaid_code U mermaid_url of
        Inl e \<Rightarrow> mermaid_sentinel
      | Inr code \<Rightarrow> code)"

text \<open>
  What \<^verbatim>\<open>urllib.parse\<close> does on a URL \<^verbatim>\<open>http://...\<close> or
  \<^verbatim>\<open>https://...\<close> that holds no percent sign, plus sign, ampersand or semicolon,
  and no host with both brackets. \<^verbatim>\<open>urlparse\<close> drops the leading control
  characters and blanks and every tab, line feed and carriage return; it raises
  \<^verbatim>\<open>ValueError\<close> when the host (the text after \<^verbatim>\<open>//\<close> up to the first
  \<^verbatim>\<open>/\<close>, \<^verbatim>\<open>?\<close> or \<^verbatim>\<open>#\<close>) holds one bracket without the other; the
  fragment is the text after the first \<^verbatim>\<open>#\<close>, the query the text between the
  first \<^verbatim>\<open>?\<close> before it and the fragment. A query \<^verbatim>\<open>name=value\<close> with a
  value is one parameter, any other query gives no parameter; \<^verbatim>\<open>unquote\<close>
  changes nothing.
\<close>

definition url_clean :: "string \<Rightarrow> string" where
  "url_clean url =
     filter (\<lambda>c. c \<noteq> CHR 0x09 \<and> c \<noteq> CHR 0x0A \<and> c \<noteq> CHR 0x0D)
       (dropWhile (\<lambda>c. (of_char c :: nat) \<le> 32) url)"

definition url_host :: "string \<Rightarrow> string" where
  "url_host url =
     takeWhile (\<lambda>c. c \<noteq> CHR ''/'' \<and> c \<noteq> CHR ''?'' \<and> c \<noteq> CHR ''#'')
       (drop 2 (dropWhile (\<lambda>c. c \<noteq> CHR ''/'') (url_clean url)))"

definition plain_parts :: "string \<Rightarrow> url_parts" where
  "plain_parts url =
     (let before = takeWhile (\<lambda>c. c \<noteq> CHR ''#'') (url_clean url)
      in \<lparr>fragment = drop (Suc (length before)) (url_clean url),
          query = drop 1 (dropWhile (\<lambda>c. c \<noteq> CHR ''?'') before)\<rparr>)"

definition plain_urlparse :: "string \<Rightarrow> exn + url_parts" where
  "plain_urlparse url =
     (if (CHR ''['' \<in> set (url_host url)) \<noteq> (CHR '']'' \<in> set (url_host url))
      then Inl Lib_error else Inr (plain_parts url))"

definition plain_qs :: "string \<Rightarrow> (string \<rightharpoonup> string list)" where
  "plain_qs q =
     (let name = takeWhile (\<lambda>c. c \<noteq> CHR ''='') q;
          val = drop (Suc (length name)) q
      in if val = [] then Map.empty else [name \<mapsto> [val]])"

definition plain_urllib :: urllib where
  "plain_urllib =
     \<lparr>urlparse = plain_urlparse,
      parse_qs = (\<lambda>q. Inr (plain_qs q)),
      unquote = (\<lambda>s. Inr s)\<rparr>"

text \<open>
  Claim C6, as the code has it. Whenever \<^verbatim>\<open>urlparse\<close>, \<^verbatim>\<open>parse_qs\<close>,
  \<^verbatim>\<open>unquote\<close> or the index into the parameter's values raises, the sentinel is
  returned. Otherwise a non-empty fragment is returned URL-decoded; without a fragment,
  the first value that \<^verbatim>\<open>parse_qs\<close> gives for \<^verbatim>\<open>graph\<close> is returned
  URL-decoded, and when there is no such parameter the URL-decoded empty text is
  returned (the empty text, for \<^verbatim>\<open>unquote("")\<close>).
\<close>

theorem mermaid_url_cases:
  "(urlparse U url = Inl e \<longrightarrow> extract_mermaid_from_mermaid_url U url = mermaid_sentinel)
   \<and> (urlparse U url = Inr u \<and> fragment u \<noteq> [] \<longrightarrow>
        (unquote U (fragment u) = Inl e \<longrightarrow>
           extract_mermaid_from_mermaid_url U url = mermaid_sentinel)
        \<and> (unquote U (fragment u) = Inr c \<longrightarrow> extract_mermaid_from_mermaid_url U url = c))
   \<and> (urlparse U url = Inr u \<and> fragment u = [] \<longrightarrow>
        (parse_qs U (query u) = Inl e \<longrightarrow>
           extract_mermaid_from_mermaid_url U url = mermaid_sentinel)
        \<and> (parse_qs U (query u) = Inr qs \<and> qs ''graph'' = Some [] \<longrightarrow>
           extract_mermaid_from_mermaid_url U url = mermaid_sentinel)
        \<and> (parse_qs U (query u) = Inr qs \<and> qs ''graph'' = Some (t # ts) \<longrightarrow>
             (unquote U t = Inl e \<longrightarrow>
                extract_mermaid_from_mermaid_url U url = mermaid_sentinel)
             \<and> (unquote U t = Inr c \<longrightarrow> extract_mermaid_from_mermaid_url U url = c))
        \<and> (parse_qs U (query u) = Inr qs \<and> qs ''graph'' = None \<longrightarrow>
             (unquote U [] = Inl e \<longrightarrow>
                extract_mermaid_from_mermaid_url U url = mermaid_sentinel)
             \<and> (unquote U [] = Inr c \<longrightarrow> extract_mermaid_from_mermaid_url U url = c)))"
  by (simp add: extract_mermaid_from_mermaid_url_def mermaid_code_def graph_param_def)

lemma plain_parse_fragment:
  "urlparse plain_urllib ''https://mermaid.live/edit#graph TD'' =
     Inr \<lparr>fragment = ''graph TD'', query = []\<rparr>"
  by (simp add: plain_urllib_def plain_urlparse_def plain_parts_def url_host_def url_clean_def)

lemma plain_parse_query:
  "urlparse plain_urllib ''https://mermaid.live/view?graph=A'' =
     Inr \<lparr>fragment = [], query = ''graph=A''\<rparr>"
  by (simp add: plain_urllib_def plain_urlparse_def plain_parts_def url_host_def url_clean_def)

lemma plain_parse_edit:
  "urlparse plain_urllib ''https://mermaid.live/edit'' = Inr \<lparr>fragment = [], query = []\<rparr>"
  by (simp add: plain_urllib_def plain_urlparse_def plain_parts_def url_host_def url_clean_def)

lemma plain_parse_bracket:
  "urlparse plain_urllib ''https://mermaid.live[x/edit'' = Inl Lib_error"
  by (simp add: plain_urllib_def plain_urlparse_def plain_parts_def url_host_def url_clean_def)

lemma plain_rest:
  "parse_qs plain_urllib q = Inr (plain_qs q)" "unquote plain_urllib s = Inr s"
  "plain_qs ''graph=A'' ''graph'' = Some [''A'']" "plain_qs [] ''graph'' = None"
  by (simp_all add: plain_urllib_def plain_qs_def)

theorem mermaid_url_cases_witness:
  "extract_mermaid_from_mermaid_url plain_urllib ''https://mermaid.live[x/edit'' = mermaid_sentinel
   \<and> extract_mermaid_from_mermaid_url plain_urllib ''https://mermaid.live/edit#graph TD'' = ''graph TD''
   \<and> extract_mermaid_from_mermaid_url plain_urllib ''https://mermaid.live/view?graph=A'' = ''A''
   \<and> extract_mermaid_from_mermaid_url plain_urllib ''https://mermaid.live/edit'' = []"
  using
    mermaid_url_cases [where U = plain_urllib and url = "''https://mermaid.live[x/edit''"
      and e = Lib_error]
    mermaid_url_cases [where U = plain_urllib and url = "''https://mermaid.live/edit#graph TD''"
      and u = "\<lparr>fragment = ''graph TD'', query = []\<rparr>" and c = "''graph TD''"]
    mermaid_url_cases [where U = plain_urllib and url = "''https://mermaid.live/view?graph=A''"
      and u = "\<lparr>fragment = [], query = ''graph=A''\<rparr>" and qs = "plain_qs ''graph=A''"
      and c = "''A''" and t = "''A''" and ts = "[]"]
    mermaid_url_cases [where U = plain_urllib and url = "''https://mermaid.live/edit''"
      and u = "\<lparr>fragment = [], query = []\<rparr>" and qs = "plain_qs []" and c = "[]"]
  unfolding plain_parse_fragment plain_parse_query plain_parse_edit plain_parse_bracket plain_rest
  by simp

text \<open>
  Claim C6 as stated fails where neither the fragment nor the \<^verbatim>\<open>graph\<close> parameter
  yields content: \<^verbatim>\<open>https://mermaid.live/edit\<close> gives the empty text, not the
  sentinel.
\<close>

theorem mermaid_url_sentinel_counterexample:
  "\<not> (\<forall>U url u qs. urlparse U url = Inr u \<and> fragment u = [] \<and>
         parse_qs U (query u) = Inr qs \<and> qs ''graph'' = None \<and> unquote U [] = Inr []
         \<longrightarrow> extract_mermaid_from_mermaid_url U url = mermaid_sentinel)"
proof
  assume a: "\<forall>U url u qs. urlparse U url = Inr u \<and> fragment u = [] \<and>
         parse_qs U (query u) = Inr qs \<and> qs ''graph'' = None \<and> unquote U [] = Inr []
         \<longrightarrow> extract_mermaid_from_mermaid_url U url = mermaid_sentinel"
  have "extract_mermaid_from_mermaid_url plain_urllib ''https://mermaid.live/edit'' = mermaid_sentinel"
    by (rule a [rule_format, of plain_urllib _ "\<lparr>fragment = [], query = []\<rparr>" "plain_qs []"])
       (simp add: plain_parse_edit plain_rest)
  then show False
    by (simp add: extract_mermaid_from_mermaid_url_def mermaid_code_def graph_param_def
        plain_parse_edit plain_rest mermaid_sentinel_def)
qed

section \<open>Properties of the matcher\<close>

subsection \<open>One step at a time\<close>

















subsection \<open>Which choice is taken\<close>


lemma first_some_Some_split:
  "first_some f xs = Some y \<Longrightarrow>
     \<exists>ys x zs. xs = ys @ x # zs \<and> f x = Some y \<and> (\<forall>x'\<in>set ys. f x' = None)"
proof (induction xs)
  case Nil
  then show ?case by simp
next
  case (Cons a xs)
  show ?case
  proof (cases "f a")
    case None
    with Cons obtain ys x zs where "xs = ys @ x # zs" "f x = Some y" "\<forall>x'\<in>set ys. f x' = None"
      by auto
    with None have "a # xs = (a # ys) @ x # zs \<and> f x = Some y \<and> (\<forall>x'\<in>set (a # ys). f x' = None)"
      by simp
    then show ?thesis by blast
  next
    case (Some z)
    with Cons.prems have "a # xs = [] @ a # xs \<and> f a = Some y \<and> (\<forall>x'\<in>set []. f x' = None)"
      by simp
    then show ?thesis by blast
  qed
qed


lemma match_Some_Cons:
  assumes "match_items (i # is) s = Some segs"
  shows "\<exists>ks k ls gs. cands i s = ks @ k # ls \<and> segs = take k s # gs
           \<and> match_items is (drop k s) = Some gs
           \<and> (\<forall>j\<in>set ks. match_items is (drop j s) = None)"
proof -
  from assms have "first_some (\<lambda>k. map_option ((#) (take k s)) (match_items is (drop k s)))
      (cands i s) = Some segs" by simp
  from first_some_Some_split [OF this] obtain ks k ls where
    c: "cands i s = ks @ k # ls"
    and k: "map_option ((#) (take k s)) (match_items is (drop k s)) = Some segs"
    and n: "\<forall>j\<in>set ks. map_option ((#) (take j s)) (match_items is (drop j s)) = None"
    by blast
  from k obtain gs where "match_items is (drop k s) = Some gs" "segs = take k s # gs" by auto
  with c n show ?thesis by auto
qed

lemma le_takeWhile_iff:
  "k \<le> length (takeWhile P s) \<longleftrightarrow> k \<le> length s \<and> (\<forall>x\<in>set (take k s). P x)"
proof (induction s arbitrary: k)
  case Nil
  then show ?case by simp
next
  case (Cons a s)
  show ?case
  proof (cases k)
    case 0
    then show ?thesis by simp
  next
    case (Suc j)
    with Cons [of j] show ?thesis by auto
  qed
qed


lemma upt_split:
  assumes "[n ..< m] = ks @ k # ls"
  shows "ks = [n ..< k] \<and> ls = [Suc k ..< m] \<and> k < m \<and> n \<le> k"
proof -
  have len: "length ks < m - n"
    using arg_cong [OF assms, of length] by simp
  have "[n ..< m] ! length ks = k" using assms by simp
  then have k: "k = n + length ks" using len by simp
  have "ks = take (length ks) [n ..< m]" using assms by simp
  also have "\<dots> = [n ..< k]" using len k by (simp add: take_upt)
  finally have 1: "ks = [n ..< k]" .
  have "ls = drop (Suc (length ks)) [n ..< m]" using assms by simp
  also have "\<dots> = [Suc k ..< m]" using k by (simp add: drop_upt)
  finally have 2: "ls = [Suc k ..< m]" .
  from 1 2 k len show ?thesis by simp
qed

text \<open>A lazy repetition takes the shortest text after which the rest matches.\<close>

lemma lazy_shortest:
  assumes "match_items (Rep Lazy n c # is) s = Some (g # gs)"
    and "n \<le> j" and "j < length g"
  shows "match_items is (drop j s) = None"
proof -
  from match_Some_Cons [OF assms(1)] obtain ks k ls gs' where
    c: "cands (Rep Lazy n c) s = ks @ k # ls" and g: "g # gs = take k s # gs'"
    and none: "\<forall>j\<in>set ks. match_items is (drop j s) = None"
    by blast
  have "k \<in> set (cands (Rep Lazy n c) s)" using c by simp
  then have "k \<le> length s" by (rule cands_le)
  with g have lg: "length g = k" by simp
  from c have "[n ..< Suc (length (takeWhile (in_cls c) s))] = ks @ k # ls" by simp
  from upt_split [OF this] have "ks = [n ..< k]" by simp
  with assms(2,3) lg have "j \<in> set ks" by simp
  with none show ?thesis by blast
qed

text \<open>A greedy repetition takes the longest text after which the rest matches.\<close>

lemma greedy_longest:
  assumes "match_items (Rep Greedy n c # is) s = Some (g # gs)"
    and "length g < j" and "j \<le> length s" and "\<forall>x\<in>set (take j s). in_cls c x"
  shows "match_items is (drop j s) = None"
proof -
  from match_Some_Cons [OF assms(1)] obtain ks k ls gs' where
    c: "cands (Rep Greedy n c) s = ks @ k # ls" and g: "g # gs = take k s # gs'"
    and none: "\<forall>j\<in>set ks. match_items is (drop j s) = None"
    by blast
  have "k \<in> set (cands (Rep Greedy n c) s)" using c by simp
  then have "k \<le> length s" by (rule cands_le)
  with g have lg: "length g = k" by simp
  from c have "[n ..< Suc (length (takeWhile (in_cls c) s))] = rev ls @ k # rev ks"
    by (simp add: rev_swap)
  from upt_split [OF this]
  have "rev ks = [Suc k ..< Suc (length (takeWhile (in_cls c) s))]" by simp
  then have "set ks = {Suc k ..< Suc (length (takeWhile (in_cls c) s))}"
    by (metis set_rev set_upt)
  moreover have "j \<le> length (takeWhile (in_cls c) s)"
    using assms(3,4) by (simp add: le_takeWhile_iff)
  ultimately have "j \<in> set ks" using assms(2) lg by simp
  with none show ?thesis by blast
qed

subsection \<open>The segments of a match\<close>


lemma match_items_append:
  "match_items (is1 @ is2) s = Some segs \<Longrightarrow>
     \<exists>segs1 segs2. segs = segs1 @ segs2 \<and> length segs1 = length is1
        \<and> s = concat segs1 @ drop (length (concat segs1)) s
        \<and> match_items is2 (drop (length (concat segs1)) s) = Some segs2"
proof (induction is1 arbitrary: s segs)
  case Nil
  then show ?case by simp
next
  case (Cons i is1)
  from Cons.prems have "match_items (i # (is1 @ is2)) s = Some segs"
    by (simp only: append_Cons)
  from match_Some_Cons [OF this] obtain ks k ls gs where
    c: "cands i s = ks @ k # ls" and segs: "segs = take k s # gs"
    and m: "match_items (is1 @ is2) (drop k s) = Some gs" by auto
  have "k \<in> set (cands i s)" using c by simp
  then have kl: "k \<le> length s" by (rule cands_le)
  from Cons.IH [OF m] obtain segs1 segs2 where
    gs: "gs = segs1 @ segs2" and l: "length segs1 = length is1"
    and d: "drop k s = concat segs1 @ drop (length (concat segs1)) (drop k s)"
    and m2: "match_items is2 (drop (length (concat segs1)) (drop k s)) = Some segs2"
    by blast
  let ?s1 = "take k s # segs1"
  have len: "length (concat ?s1) = k + length (concat segs1)" using kl by simp
  have "s = take k s @ drop k s" by simp
  also have "\<dots> = take k s @ concat segs1 @ drop (length (concat segs1)) (drop k s)"
    using d by simp
  finally have "s = concat ?s1 @ drop (length (concat ?s1)) s"
    using len by (simp add: add.commute)
  moreover have "match_items is2 (drop (length (concat ?s1)) s) = Some segs2"
    using m2 len by (simp add: add.commute)
  ultimately have "segs = ?s1 @ segs2 \<and> length ?s1 = length (i # is1)
      \<and> s = concat ?s1 @ drop (length (concat ?s1)) s
      \<and> match_items is2 (drop (length (concat ?s1)) s) = Some segs2"
    using segs gs l by simp
  then show ?case by blast
qed

subsection \<open>Where a search succeeds\<close>


lemma search_Some_leftmost:
  "search is t = Some (pre, segs, rest) \<Longrightarrow> k < length pre \<Longrightarrow> match_items is (drop k t) = None"
proof (induction t arbitrary: pre k)
  case Nil
  then show ?case by auto
next
  case (Cons c cs)
  show ?case
  proof (cases "match_items is (c # cs)")
    case (Some sg)
    with Cons.prems show ?thesis by simp
  next
    case None
    with Cons.prems obtain pre' where p: "search is cs = Some (pre', segs, rest)" "pre = c # pre'"
      by (auto split: option.splits)
    show ?thesis
    proof (cases k)
      case 0
      with None show ?thesis by simp
    next
      case (Suc j)
      with Cons.prems(2) p have "j < length pre'" by simp
      from Cons.IH [OF p(1) this] Suc show ?thesis by simp
    qed
  qed
qed


section \<open>The two header patterns\<close>

declare match_items.simps(2) [simp del]

subsection \<open>Substitution, step by step\<close>



subsection \<open>Every text the parser matches, the updater matches\<close>








subsection \<open>The replacement template\<close>

lemma tcons_simps [simp]:
  "tcons ts (Inr us) = Inr (ts @ us)" "tcons ts (Inl e) = Inl e"
  by (simp_all add: tcons_def)












subsection \<open>The groups of a match\<close>

lemma length_chop [simp]: "length (chop ns xs) = length ns"
  by (induction ns xs rule: chop.induct) simp_all








subsection \<open>What the update does\<close>








section \<open>The claims on the metadata header\<close>

subsection \<open>Sample texts\<close>

















lemma extract_cases:
  "extract_metadata_from_markdown t = Map.empty \<and> search parse_items t = None
   \<or> (\<exists>a d s r p. extract_metadata_from_markdown t =
         [''author'' \<mapsto> a, ''date'' \<mapsto> d, ''status'' \<mapsto> s, ''reviewers'' \<mapsto> r, ''topic'' \<mapsto> p]
        \<and> search parse_items t \<noteq> None)"
proof (cases "search parse_items t")
  case None
  then show ?thesis by (simp add: extract_metadata_from_markdown_def)
next
  case (Some x)
  obtain pre segs rest where "x = (pre, segs, rest)" by (cases x) auto
  with Some have "extract_metadata_from_markdown t =
         [''author'' \<mapsto> strip (segs ! 1), ''date'' \<mapsto> strip (segs ! 6),
          ''status'' \<mapsto> strip (segs ! 11), ''reviewers'' \<mapsto> strip (segs ! 16),
          ''topic'' \<mapsto> strip (segs ! 21)]"
    by (simp add: extract_metadata_from_markdown_def)
  with Some show ?thesis by blast
qed



subsection \<open>Claim C3\<close>






subsection \<open>Claim C4\<close>







subsection \<open>Claim C10\<close>








end
